theory Spec2Isabelle
  imports Complex_Main "HOL-Library.Sublist"
begin

section \<open>JavaScript values used by the guestbook actions\<close>

text \<open>
  A value of type \<open>string | null | undefined\<close> is a \<open>string option\<close>: \<open>None\<close> stands for
  both \<open>null\<close> and \<open>undefined\<close>, which the code below never tells apart. Strings are lists of
  8-bit characters here, so \<open>length\<close> and \<open>toLowerCase\<close> agree with JavaScript on ASCII text
  only; \<open>is_ascii\<close> marks that text, and what is proved about letter case is proved for it.
  A number is an integer-valued double, an \<open>int\<close> here; sums and products are rounded as
  doubles are.
\<close>

definition truthy :: "string option \<Rightarrow> bool" where
  \<comment> \<open>\<open>!!v\<close>: \<open>null\<close>, \<open>undefined\<close> and the empty string are falsy.\<close>
  "truthy v = (case v of None \<Rightarrow> False | Some s \<Rightarrow> s \<noteq> [])"

definition js_or :: "string option \<Rightarrow> string option \<Rightarrow> string option" where
  \<comment> \<open>\<open>a || b\<close>: the first operand when it is truthy, the second otherwise.\<close>
  "js_or a b = (if truthy a then a else b)"

definition is_ascii :: "string \<Rightarrow> bool" where
  "is_ascii s = list_all (\<lambda>c. (of_char c :: nat) < 128) s"

definition toLowerCase_char :: "char \<Rightarrow> char" where
  \<comment> \<open>The letters A to Z become a to z. \<open>String.prototype.toLowerCase\<close> also folds letters
      outside ASCII, which this model does not represent.\<close>
  "toLowerCase_char c =
     (let n = (of_char c :: nat) in if 65 \<le> n \<and> n \<le> 90 then char_of (n + 32) else c)"

definition toLowerCase :: "string \<Rightarrow> string" where
  "toLowerCase s = map toLowerCase_char s"

fun join :: "string \<Rightarrow> string list \<Rightarrow> string" where
  \<comment> \<open>\<open>Array.prototype.join\<close> on an array of strings.\<close>
  "join sep [] = []"
| "join sep [x] = x"
| "join sep (x # y # ys) = x @ sep @ join sep (y # ys)"

fun bit_length :: "nat \<Rightarrow> nat" where
  "bit_length n = (if n = 0 then 0 else Suc (bit_length (n div 2)))"

declare bit_length.simps [simp del]

definition to_double :: "int \<Rightarrow> int" where
  \<comment> \<open>The double nearest to an integer, ties to the even significand: integers below
      \<open>2^53\<close> in magnitude are doubles, larger ones keep their 53 leading bits. From \<open>2^1024\<close>
      on the double is infinite; the value here is then some integer of that size, which
      is as far outside the range of a store's integers.\<close>
  "to_double n =
     (let a = \<bar>n\<bar> in
      if a < 2 ^ 53 then n
      else
        (let e = bit_length (nat a) - 53;
             q = a div 2 ^ e;
             r = a mod 2 ^ e;
             h = 2 ^ (e - 1);
             q' = (if h < r \<or> (r = h \<and> odd q) then q + 1 else q)
         in sgn n * (q' * 2 ^ e)))"

definition js_minus :: "int \<Rightarrow> int \<Rightarrow> int" where
  "js_minus a b = to_double (a - b)"

definition js_times :: "int \<Rightarrow> int \<Rightarrow> int" where
  "js_times a b = to_double (a * b)"

datatype js_number = Num int | Infinity | NaN

definition Math_ceil_div :: "int \<Rightarrow> int \<Rightarrow> js_number" where
  \<comment> \<open>\<open>Math.ceil(a / b)\<close> for a count \<open>a \<ge> 0\<close> below \<open>2^53\<close> and an integer \<open>b\<close>: the quotient of
      doubles, rounded up; a division by zero gives \<open>Infinity\<close>, or \<open>NaN\<close> for \<open>0 / 0\<close>.\<close>
  "Math_ceil_div a b =
     (if b = 0 then (if a = 0 then NaN else Infinity) else Num (- ((- a) div b)))"

definition js_less :: "int \<Rightarrow> js_number \<Rightarrow> bool" where
  \<comment> \<open>\<open>a < b\<close> for an integer \<open>a\<close>: every comparison with \<open>NaN\<close> is false.\<close>
  "js_less a b = (case b of Num n \<Rightarrow> a < n | Infinity \<Rightarrow> True | NaN \<Rightarrow> False)"

section \<open>The tables and the session\<close>

record guestbook_row =
  g_id :: string
  g_message :: string
  g_createdAt :: int
  g_userId :: string
  g_replyToId :: "string option"

record user_row =
  u_id :: string
  u_username :: "string option"
  u_displayUsername :: "string option"
  u_name :: "string option"

record database =
  db_guestbook :: "guestbook_row list"
  db_user :: "user_row list"

record session =
  session_user_id :: string
  session_user_email :: string
  session_user_emailVerified :: bool

definition canPost :: "session \<Rightarrow> bool" where
  \<comment> \<open>The condition under which \<open>Home\<close> renders \<open>NewMessageForm\<close> and passes \<open>onReply\<close>.\<close>
  "canPost s = session_user_emailVerified s"

definition Home_offers_posting :: "session option \<Rightarrow> bool" where
  \<comment> \<open>\<open>session && session.user.emailVerified\<close>: the form is shown, else the verification panel.\<close>
  "Home_offers_posting so = (case so of None \<Rightarrow> False | Some s \<Rightarrow> canPost s)"

section \<open>Content validation\<close>

record validation_options =
  allowLinks :: bool
  allowProfanity :: bool
  maxLength :: nat
  minLength :: nat

record validation =
  isValid :: bool
  errors :: "string list"
  sanitizedContent :: "string option"

type_synonym validator = "string \<Rightarrow> validation_options \<Rightarrow> validation"

definition is_space :: "char \<Rightarrow> bool" where
  "is_space c = (c \<in> set [CHR '' '', CHR 0x09, CHR 0x0A, CHR 0x0B, CHR 0x0C, CHR 0x0D])"

definition trim :: "string \<Rightarrow> string" where
  "trim s = rev (dropWhile is_space (rev (dropWhile is_space s)))"

definition validateMessageContent ::
  "(string \<Rightarrow> bool) \<Rightarrow> (string \<Rightarrow> bool) \<Rightarrow> validator" where
  \<comment> \<open>Modelled from the spec: \<open>validateMessageContent\<close> of \<open>@/lib/content-validation\<close> is not
      among the sources. Spec 4.1: the text is trimmed; empty text always fails the minimum
      length; the reasons are an ordered list of distinct codes and may hold a length and a
      content reason at once; acceptance returns the sanitized text. How a link or profanity
      is recognised is not specified, so both tests are parameters; the reason codes are
      this model's names.\<close>
  "validateMessageContent containsLink containsProfanity content opts =
     (let trimmed = trim content;
          errs =
            (if length trimmed = 0 \<or> length trimmed < minLength opts then [''MIN_LENGTH''] else []) @
            (if maxLength opts < length trimmed then [''MAX_LENGTH''] else []) @
            (if \<not> allowLinks opts \<and> containsLink trimmed then [''LINKS_NOT_ALLOWED''] else []) @
            (if \<not> allowProfanity opts \<and> containsProfanity trimmed
             then [''PROFANITY_NOT_ALLOWED''] else [])
      in \<lparr>isValid = (errs = []), errors = errs,
          sanitizedContent = (if errs = [] then Some trimmed else None)\<rparr>)"

fun starts_with :: "string \<Rightarrow> string \<Rightarrow> bool" where
  "starts_with [] s = True"
| "starts_with (p # ps) [] = False"
| "starts_with (p # ps) (c # cs) = (p = c \<and> starts_with ps cs)"

fun mentions :: "string \<Rightarrow> string \<Rightarrow> bool" where
  \<comment> \<open>A sample recogniser for the examples: the text holds the given marker.\<close>
  "mentions p [] = starts_with p []"
| "mentions p (c # cs) = (starts_with p (c # cs) \<or> mentions p cs)"

section \<open>Posting: \<open>createGuestbookEntry\<close>\<close>

datatype error = Error string | StorageFailure

type_synonym store_insert = "database \<Rightarrow> guestbook_row \<Rightarrow> error + database"

definition insert_guestbook :: "database \<Rightarrow> guestbook_row \<Rightarrow> database" where
  \<comment> \<open>The row is appended to the table: the insert into a \<open>guestbook\<close> table that declares no
      constraint. The table's declaration (\<open>@/db/schema\<close>) is not among the sources.\<close>
  "insert_guestbook db row = db\<lparr>db_guestbook := db_guestbook db @ [row]\<rparr>"


definition post_options :: "string option \<Rightarrow> validation_options" where
  \<comment> \<open>\<open>maxLength = replyToId ? 1000 : 200\<close> and the options literal of the call.\<close>
  "post_options replyToId =
     \<lparr>allowLinks = False, allowProfanity = False,
      maxLength = (if truthy replyToId then 1000 else 200), minLength = 1\<rparr>"

record entry =
  entry_id :: string
  message :: string
  createdAt :: int
  username :: "string option"
  displayUsername :: "string option"
  name :: "string option"
  userId :: string
  replyToId :: "string option"

record entry_with_reply = entry +
  replyToMessage :: "string option"
  replyToUsername :: "string option"

record entry_with_creator = entry_with_reply +
  isCreator :: bool

text \<open>
  \<open>createGuestbookEntry_on\<close> is the body of \<open>createGuestbookEntry\<close> with the store's insert as
  its first argument. The session is what \<open>auth.api.getSession\<close> returned; \<open>newId\<close> and \<open>now\<close>
  are the values the store gives the columns the insert leaves out (\<open>id\<close>, \<open>createdAt\<close>). The
  second component of a successful result is the value the returned promise resolves to;
  the body has no \<open>return\<close> statement, so it is \<open>undefined\<close>, \<open>None\<close> here. A valid result
  without sanitized content would insert no message text, which the store refuses; a
  failure of the insert is the failure of the call. \<open>revalidatePath\<close> only invalidates a
  cache and is left out. \<open>createGuestbookEntry\<close> is the function on a table without
  constraints.
\<close>

definition createGuestbookEntry_on ::
  "store_insert \<Rightarrow> validator \<Rightarrow> session option \<Rightarrow> string \<Rightarrow> int \<Rightarrow> string
     \<Rightarrow> string option \<Rightarrow> database \<Rightarrow> error + database \<times> entry_with_creator option" where
  "createGuestbookEntry_on ins validate sess newId now msg replyTo db =
     (case sess of
        None \<Rightarrow> Inl (Error ''You must be signed in to post a message'')
      | Some s \<Rightarrow>
          (let v = validate msg (post_options replyTo) in
           if \<not> isValid v then Inl (Error (join '', '' (errors v)))
           else (case sanitizedContent v of
                   None \<Rightarrow> Inl StorageFailure
                 | Some text \<Rightarrow>
                     (case ins db
                             \<lparr>g_id = newId, g_message = text, g_createdAt = now,
                              g_userId = session_user_id s,
                              g_replyToId = js_or replyTo None\<rparr> of
                        Inl e \<Rightarrow> Inl e
                      | Inr db' \<Rightarrow> Inr (db', None)))))"

definition createGuestbookEntry ::
  "validator \<Rightarrow> session option \<Rightarrow> string \<Rightarrow> int \<Rightarrow> string \<Rightarrow> string option \<Rightarrow> database
     \<Rightarrow> error + database \<times> entry_with_creator option" where
  "createGuestbookEntry =
     createGuestbookEntry_on (\<lambda>db row. Inr (insert_guestbook db row))"

section \<open>Reading: \<open>getGuestbookEntries\<close>\<close>

record pagination =
  page :: int
  limit :: int
  total :: int
  totalPages :: js_number
  hasNext :: bool
  hasPrev :: bool

record feed =
  entries :: "entry_with_creator list"
  feed_pagination :: pagination

definition leftJoin_user :: "database \<Rightarrow> guestbook_row \<Rightarrow> entry" where
  \<comment> \<open>The selected columns of a row of \<open>guestbook LEFT JOIN user ON userId = user.id\<close>.\<close>
  "leftJoin_user db g =
     (let u = find (\<lambda>u. u_id u = g_userId g) (db_user db) in
      \<lparr>entry_id = g_id g, message = g_message g, createdAt = g_createdAt g,
       username = Option.bind u u_username,
       displayUsername = Option.bind u u_displayUsername,
       name = Option.bind u u_name,
       userId = g_userId g, replyToId = g_replyToId g\<rparr>)"

type_synonym select_page = "guestbook_row list \<Rightarrow> int \<Rightarrow> int \<Rightarrow> error + guestbook_row list"

definition js_offset :: "int \<Rightarrow> int \<Rightarrow> int" where
  \<comment> \<open>\<open>const offset = (page - 1) * limit\<close>.\<close>
  "js_offset pg lmt = js_times (js_minus pg 1) lmt"

definition author_label :: "'a entry_scheme \<Rightarrow> string option" where
  \<comment> \<open>\<open>entry.displayUsername || entry.username || entry.name\<close>.\<close>
  "author_label e = js_or (js_or (displayUsername e) (username e)) (name e)"

definition originalMessage :: "database \<Rightarrow> string \<Rightarrow> entry option" where
  \<comment> \<open>\<open>originalMessage[0]\<close> of the query \<open>WHERE guestbook.id = replyToId LIMIT 1\<close>.\<close>
  "originalMessage db r =
     map_option (leftJoin_user db) (find (\<lambda>g. g_id g = r) (db_guestbook db))"

definition with_reply_info :: "database \<Rightarrow> entry \<Rightarrow> entry_with_reply" where
  "with_reply_info db e =
     (if truthy (replyToId e) then
        (let orig = Option.bind (replyToId e) (originalMessage db) in
         \<lparr>entry_id = entry_id e, message = message e, createdAt = createdAt e,
          username = username e, displayUsername = displayUsername e, name = name e,
          userId = userId e, replyToId = replyToId e,
          replyToMessage = map_option message orig,
          replyToUsername =
            js_or (js_or (Option.bind orig displayUsername) (Option.bind orig username))
              (Option.bind orig name)\<rparr>)
      else
        \<lparr>entry_id = entry_id e, message = message e, createdAt = createdAt e,
         username = username e, displayUsername = displayUsername e, name = name e,
         userId = userId e, replyToId = replyToId e,
         replyToMessage = None, replyToUsername = None\<rparr>)"

definition with_creator :: "string option \<Rightarrow> entry_with_reply \<Rightarrow> entry_with_creator" where
  \<comment> \<open>The first argument is \<open>creatorUsername\<close>, already in lower case.\<close>
  "with_creator creatorUsername e =
     (let entryUsername = map_option toLowerCase (author_label e) in
      \<lparr>entry_id = entry_id e, message = message e, createdAt = createdAt e,
       username = username e, displayUsername = displayUsername e, name = name e,
       userId = userId e, replyToId = replyToId e,
       replyToMessage = replyToMessage e, replyToUsername = replyToUsername e,
       isCreator = (truthy creatorUsername \<and> entryUsername = creatorUsername)\<rparr>)"

text \<open>
  The first argument is the store running the query
  \<open>.orderBy(desc(createdAt)).limit(limit).offset(offset)\<close> on the rows of the table: it returns
  the selected rows or fails, and its failure is the failure of the call. The second
  argument is \<open>process.env.CREATOR_USERNAME\<close>. The count of all rows is taken to be below
  \<open>2^53\<close>, so that it is a number without rounding.
\<close>

definition getGuestbookEntries ::
  "select_page \<Rightarrow> string option \<Rightarrow> database \<Rightarrow> int \<Rightarrow> int \<Rightarrow> error + feed" where
  "getGuestbookEntries select CREATOR_USERNAME db pg lmt =
     (let offset = js_offset pg lmt;
          creatorUsername = map_option toLowerCase CREATOR_USERNAME
      in case select (db_guestbook db) lmt offset of
           Inl e \<Rightarrow> Inl e
         | Inr rows \<Rightarrow>
             (let selected = map (leftJoin_user db) rows;
                  entriesWithReplyInfo = map (with_reply_info db) selected;
                  entriesWithCreator = map (with_creator creatorUsername) entriesWithReplyInfo;
                  totalCount = int (length (db_guestbook db))
              in Inr \<lparr>entries = entriesWithCreator,
                      feed_pagination =
                        \<lparr>page = pg, limit = lmt, total = totalCount,
                         totalPages = Math_ceil_div totalCount lmt,
                         hasNext = js_less pg (Math_ceil_div totalCount lmt),
                         hasPrev = (pg > 1)\<rparr>\<rparr>))"

definition orderBy_desc_createdAt :: "guestbook_row list \<Rightarrow> guestbook_row list" where
  \<comment> \<open>Newest first; rows of one creation time stay in the order of the table.\<close>
  "orderBy_desc_createdAt rows = sort_key (\<lambda>g. - g_createdAt g) rows"

definition int64_select_page :: select_page where
  \<comment> \<open>The query on a store whose \<open>LIMIT\<close> and \<open>OFFSET\<close> are signed 64-bit integers: a value
      outside that range is refused; a negative limit is no limit and a negative offset
      is none, as in SQLite. Which store the application runs on is not among the sources;
      what is proved of every page is proved for every \<open>select_page\<close>.\<close>
  "int64_select_page rows l ofs =
     (if l < - (2 ^ 63) \<or> 2 ^ 63 \<le> l \<or> ofs < - (2 ^ 63) \<or> 2 ^ 63 \<le> ofs
      then Inl StorageFailure
      else Inr ((if l < 0 then (\<lambda>xs. xs) else take (nat l))
                  (drop (nat ofs) (orderBy_desc_createdAt rows))))"

section \<open>The client: ignore toggle and creator highlight of \<open>Home\<close>\<close>

record preferences =
  ignoredUsers :: "string list option"

datatype action = Ignore | ViewOnly

datatype effect = UpdateIgnoredUsers "string list" | RouterPush string

definition currentIgnored :: "preferences option \<Rightarrow> string list" where
  \<comment> \<open>\<open>preferences?.ignoredUsers || []\<close>; an array, also an empty one, is truthy.\<close>
  "currentIgnored p =
     (case Option.bind p ignoredUsers of None \<Rightarrow> [] | Some l \<Rightarrow> l)"

definition handleUsernameAction :: "preferences option \<Rightarrow> string \<Rightarrow> action \<Rightarrow> effect" where
  \<comment> \<open>The result is the one call the handler makes: \<open>updateIgnoredUsersMutation.mutateAsync\<close>
      with its argument, or \<open>router.push\<close> with its path.\<close>
  "handleUsernameAction p u a =
     (case a of
        Ignore \<Rightarrow>
          (let cur = currentIgnored p;
               isCurrentlyIgnored = (u \<in> set cur)
           in UpdateIgnoredUsers
                (if isCurrentlyIgnored then filter (\<lambda>x. x \<noteq> u) cur else cur @ [u]))
      | ViewOnly \<Rightarrow> RouterPush (''/user/'' @ u))"

definition Home_isCreator :: "string option \<Rightarrow> 'a entry_scheme \<Rightarrow> bool" where
  \<comment> \<open>\<open>username === creatorUsername\<close> with
      \<open>username = entry.displayUsername || entry.username || entry.name || ''\<close>.\<close>
  "Home_isCreator CREATOR_USERNAME e =
     (js_or (author_label e) (Some []) = CREATOR_USERNAME)"

section \<open>Properties as the specification words them\<close>


definition is_upper :: "char \<Rightarrow> bool" where
  "is_upper c = (65 \<le> (of_char c :: nat) \<and> (of_char c :: nat) \<le> 90)"

definition same_letter :: "char \<Rightarrow> char \<Rightarrow> bool" where
  \<comment> \<open>Equal up to case: the same character, or a capital and its small letter.\<close>
  "same_letter x y =
     (x = y \<or> (is_upper x \<and> of_char y = (of_char x :: nat) + 32)
            \<or> (is_upper y \<and> of_char x = (of_char y :: nat) + 32))"

definition equal_ignoring_case :: "string \<Rightarrow> string \<Rightarrow> bool" where
  "equal_ignoring_case a b = list_all2 same_letter a b"

definition stored_fields :: "'a entry_scheme \<Rightarrow> guestbook_row" where
  \<comment> \<open>The columns of the \<open>guestbook\<close> table that an entry carries.\<close>
  "stored_fields e =
     \<lparr>g_id = entry_id e, g_message = message e, g_createdAt = createdAt e,
      g_userId = userId e, g_replyToId = replyToId e\<rparr>"

section \<open>Sample data\<close>

definition alice :: user_row where
  "alice = \<lparr>u_id = ''u1'', u_username = Some ''alice'', u_displayUsername = Some ''Alice'',
            u_name = Some ''Alice A''\<rparr>"

definition bob :: user_row where
  "bob = \<lparr>u_id = ''u2'', u_username = Some ''bob'', u_displayUsername = None,
          u_name = Some ''Bob B''\<rparr>"

definition small_db :: database where
  "small_db =
     \<lparr>db_guestbook =
        [\<lparr>g_id = ''m1'', g_message = ''hello'', g_createdAt = 10, g_userId = ''u1'',
          g_replyToId = None\<rparr>,
         \<lparr>g_id = ''m2'', g_message = ''hi alice'', g_createdAt = 20, g_userId = ''u2'',
          g_replyToId = Some ''m1''\<rparr>],
      db_user = [alice, bob]\<rparr>"

definition sample_db :: database where
  \<comment> \<open>\<open>small_db\<close> and a reply whose parent is not in the table.\<close>
  "sample_db =
     small_db\<lparr>db_guestbook := db_guestbook small_db @
        [\<lparr>g_id = ''m3'', g_message = ''lost'', g_createdAt = 30, g_userId = ''u1'',
          g_replyToId = Some ''gone''\<rparr>]\<rparr>"

definition ghost_db :: database where
  \<comment> \<open>A message whose author has no row in the user table, and a reply to it.\<close>
  "ghost_db =
     \<lparr>db_guestbook =
        [\<lparr>g_id = ''m1'', g_message = ''hello'', g_createdAt = 10, g_userId = ''u9'',
          g_replyToId = None\<rparr>,
         \<lparr>g_id = ''m2'', g_message = ''hi there'', g_createdAt = 20, g_userId = ''u2'',
          g_replyToId = Some ''m1''\<rparr>],
      db_user = [alice, bob]\<rparr>"

definition unverified_session :: session where
  "unverified_session =
     \<lparr>session_user_id = ''u2'', session_user_email = ''bob@example.org'',
      session_user_emailVerified = False\<rparr>"

definition verified_session :: session where
  "verified_session =
     \<lparr>session_user_id = ''u1'', session_user_email = ''alice@example.org'',
      session_user_emailVerified = True\<rparr>"

definition sample_validator :: validator where
  \<comment> \<open>The validator with a link test that looks for \<open>http\<close> and no profanity list.\<close>
  "sample_validator = validateMessageContent (mentions ''http'') (\<lambda>t. False)"

definition long_text :: string where
  \<comment> \<open>250 characters, no link.\<close>
  "long_text = replicate 250 (CHR ''a'')"

definition long_link_text :: string where
  \<comment> \<open>263 characters with a link.\<close>
  "long_link_text = ''see http://x '' @ replicate 250 (CHR ''a'')"

section \<open>Facts about the JavaScript helpers\<close>

lemma truthy_Some [simp]: "truthy (Some s) = (s \<noteq> [])"
  by (simp add: truthy_def)

lemma truthy_None [simp]: "truthy None = False"
  by (simp add: truthy_def)

lemma to_double_small: "\<bar>n\<bar> < 2 ^ 53 \<Longrightarrow> to_double n = n"
  by (simp add: to_double_def Let_def)

lemma to_double_nonneg: "0 \<le> n \<Longrightarrow> 0 \<le> to_double n"
  by (auto simp add: to_double_def Let_def sgn_if pos_imp_zdiv_nonneg_iff)

lemma js_offset_nonneg:
  assumes "1 \<le> pg" and "0 \<le> lmt"
  shows "0 \<le> js_offset pg lmt"
proof -
  have "0 \<le> js_minus pg 1"
    using assms(1) by (simp add: js_minus_def to_double_nonneg)
  then have "0 \<le> js_minus pg 1 * lmt"
    using assms(2) by simp
  then show ?thesis
    by (simp add: js_offset_def js_times_def to_double_nonneg)
qed

lemma js_offset_exact:
  assumes "1 \<le> pg" and "0 < lmt" and "(pg - 1) * lmt < 2 ^ 53"
  shows "js_offset pg lmt = (pg - 1) * lmt"
proof -
  have "pg - 1 \<le> (pg - 1) * lmt"
    using assms(1,2) by (simp add: mult_le_cancel_left1)
  then have "\<bar>pg - 1\<bar> < 2 ^ 53"
    using assms(1,3) by simp
  then have "js_minus pg 1 = pg - 1"
    by (simp add: js_minus_def to_double_small)
  moreover have "\<bar>(pg - 1) * lmt\<bar> < 2 ^ 53"
    using assms by simp
  ultimately show ?thesis
    by (simp add: js_offset_def js_times_def to_double_small)
qed

lemma Math_ceil_div_ceiling:
  "b \<noteq> 0 \<Longrightarrow> Math_ceil_div a b = Num \<lceil>real_of_int a / real_of_int b\<rceil>"
  by (simp add: Math_ceil_div_def ceiling_divide_eq_div)

lemma toLowerCase_Nil_iff [simp]: "toLowerCase c = [] \<longleftrightarrow> c = []"
  by (simp add: toLowerCase_def)

lemma toLowerCase_char_same_letter:
  "toLowerCase_char x = toLowerCase_char y \<longleftrightarrow> same_letter x y"
proof -
  have up: "of_char (char_of (of_char c + 32 :: nat)) = (of_char c :: nat) + 32"
    if "is_upper c" for c
    using that by (simp add: is_upper_def)
  show ?thesis
  proof (cases "is_upper x")
    case ux: True
    show ?thesis
    proof (cases "is_upper y")
      case uy: True
      have "char_of (of_char x + 32 :: nat) = char_of (of_char y + 32 :: nat) \<longleftrightarrow> x = y"
        using up[OF ux] up[OF uy] by (metis add_right_cancel of_char_eq_iff)
      moreover have "same_letter x y \<longleftrightarrow> x = y"
        using ux uy by (auto simp: same_letter_def is_upper_def)
      ultimately show ?thesis using ux uy
        by (simp add: toLowerCase_char_def is_upper_def Let_def)
    next
      case uy: False
      have "char_of (of_char x + 32 :: nat) = y \<longleftrightarrow> of_char y = (of_char x :: nat) + 32"
        using up[OF ux] by (metis char_of_char)
      moreover have "x \<noteq> y" using ux uy by auto
      ultimately show ?thesis using ux uy
        by (auto simp add: toLowerCase_char_def is_upper_def Let_def same_letter_def)
    qed
  next
    case ux: False
    show ?thesis
    proof (cases "is_upper y")
      case uy: True
      have "x = char_of (of_char y + 32 :: nat) \<longleftrightarrow> of_char x = (of_char y :: nat) + 32"
        using up[OF uy] by (metis char_of_char)
      moreover have "x \<noteq> y" using ux uy by auto
      ultimately show ?thesis using ux uy
        by (auto simp add: toLowerCase_char_def is_upper_def Let_def same_letter_def)
    next
      case uy: False
      then show ?thesis using ux
        by (auto simp add: toLowerCase_char_def is_upper_def Let_def same_letter_def)
    qed
  qed
qed

lemma toLowerCase_eq_iff:
  "toLowerCase a = toLowerCase b \<longleftrightarrow> equal_ignoring_case a b"
  unfolding toLowerCase_def equal_ignoring_case_def
proof (induction a arbitrary: b)
  case Nil
  then show ?case by auto
next
  case (Cons x xs)
  then show ?case by (cases b) (auto simp: toLowerCase_char_same_letter)
qed

lemma sublist_join:
  assumes "e \<in> set es"
  shows "sublist e (join sep es)"
  using assms
proof (induction sep es rule: join.induct)
  case (1 sep)
  then show ?case by simp
next
  case (2 sep x)
  then show ?case by simp
next
  case (3 sep x y ys)
  show ?case
  proof (cases "e = x")
    case True
    then show ?thesis by (simp add: sublist_append_rightI)
  next
    case False
    with 3 have "sublist e (join sep (y # ys))" by simp
    then show ?thesis by (simp add: sublist_append)
  qed
qed

lemma trim_replicate:
  assumes "\<not> is_space c"
  shows "trim (replicate n c) = replicate n c"
proof -
  have "dropWhile is_space (replicate n c) = replicate n c"
    using assms by (cases n) simp_all
  then show ?thesis by (simp add: trim_def)
qed

lemma bit_length_pow2: "bit_length (2 ^ k) = Suc k"
proof (induction k)
  case 0
  show ?case by (simp add: bit_length.simps[of "Suc 0"] bit_length.simps[of 0])
next
  case (Suc k)
  have "bit_length (2 ^ Suc k) = Suc (bit_length (2 ^ Suc k div 2))"
    by (subst bit_length.simps) simp
  then show ?case using Suc by simp
qed

lemma to_double_pow2: "to_double (2 ^ k) = 2 ^ k"
proof (cases "k < 53")
  case True
  then have "(2::int) ^ k < 2 ^ 53"
    by (intro power_strict_increasing) simp_all
  then have "\<bar>(2::int) ^ k\<bar> < 2 ^ 53" by simp
  then show ?thesis by (rule to_double_small)
next
  case False
  then have k: "53 \<le> k" by simp
  have "(2::int) ^ 53 \<le> 2 ^ k"
    using k by (intro power_increasing) simp_all
  then have big: "\<not> \<bar>(2::int) ^ k\<bar> < 2 ^ 53"
    by simp
  have bl: "bit_length (nat \<bar>(2::int) ^ k\<bar>) = Suc k"
    by (simp add: nat_power_eq bit_length_pow2)
  have e: "Suc k - 53 = k - 52" using k by simp
  have km: "k = 52 + (k - 52)" using k by simp
  have split: "(2::int) ^ k = 2 ^ 52 * 2 ^ (k - 52)"
    by (subst km) (rule power_add)
  have q: "\<bar>(2::int) ^ k\<bar> div 2 ^ (k - 52) = 2 ^ 52"
    and r: "\<bar>(2::int) ^ k\<bar> mod 2 ^ (k - 52) = 0"
    by (simp_all add: split)
  have h: "(0::int) < 2 ^ (k - 52 - 1)" by simp
  show ?thesis
    unfolding to_double_def Let_def bl e q r
    using big h split by simp
qed

lemma js_offset_3_pow62: "js_offset 3 (2 ^ 62) = 2 ^ 63"
proof -
  have "js_minus 3 1 = 2"
    by (simp add: js_minus_def to_double_small)
  moreover have "(2::int) * 2 ^ 62 = 2 ^ 63" by simp
  ultimately show ?thesis
    unfolding js_offset_def js_times_def by (simp only: to_double_pow2)
qed

section \<open>Facts about the feed\<close>

lemma isCreator_with_creator [simp]:
  "isCreator (with_creator c e) = (truthy c \<and> map_option toLowerCase (author_label e) = c)"
  by (simp add: with_creator_def Let_def)

lemma author_label_with_creator [simp]: "author_label (with_creator c e) = author_label e"
  by (simp add: with_creator_def author_label_def Let_def)

lemma author_label_with_reply_info [simp]: "author_label (with_reply_info db e) = author_label e"
  by (simp add: with_reply_info_def author_label_def Let_def)

lemma stored_fields_with_creator [simp]: "stored_fields (with_creator c e) = stored_fields e"
  by (simp add: with_creator_def stored_fields_def Let_def)

lemma stored_fields_with_reply_info [simp]: "stored_fields (with_reply_info db e) = stored_fields e"
  by (simp add: with_reply_info_def stored_fields_def Let_def)

lemma stored_fields_leftJoin_user [simp]: "stored_fields (leftJoin_user db g) = g"
  by (simp add: leftJoin_user_def stored_fields_def Let_def)

lemma replyToId_stored_fields [simp]: "g_replyToId (stored_fields e) = replyToId e"
  by (simp add: stored_fields_def)

lemma reply_fields_with_creator [simp]:
  "replyToMessage (with_creator c e) = replyToMessage e"
  "replyToUsername (with_creator c e) = replyToUsername e"
  "replyToId (with_creator c e) = replyToId e"
  by (simp_all add: with_creator_def Let_def)

lemma replyToId_with_reply_info [simp]: "replyToId (with_reply_info db e) = replyToId e"
  by (simp add: with_reply_info_def Let_def)

lemma replyToId_leftJoin_user [simp]: "replyToId (leftJoin_user db g) = g_replyToId g"
  by (simp add: leftJoin_user_def Let_def)


lemma message_leftJoin_user [simp]: "message (leftJoin_user db g) = g_message g"
  by (simp add: leftJoin_user_def Let_def)

lemma label_of_joined:
  "js_or (js_or (displayUsername e) (username e)) (name e) = author_label e"
  by (simp add: author_label_def)

lemma reply_info_resolved:
  assumes "replyToId e = Some r" and "r \<noteq> []"
  shows "replyToMessage (with_reply_info db e)
           = map_option g_message (find (\<lambda>g. g_id g = r) (db_guestbook db))"
    and "replyToUsername (with_reply_info db e)
           = (case find (\<lambda>g. g_id g = r) (db_guestbook db) of
                None \<Rightarrow> None
              | Some parent \<Rightarrow> author_label (leftJoin_user db parent))"
  using assms
  by (auto simp: with_reply_info_def originalMessage_def Let_def author_label_def js_or_def
           option.map_comp comp_def split: option.splits)

lemma getGuestbookEntries_InrD:
  assumes "getGuestbookEntries sel C db pg lmt = Inr f"
  obtains rows where "sel (db_guestbook db) lmt (js_offset pg lmt) = Inr rows"
    and "entries f =
           map (\<lambda>g. with_creator (map_option toLowerCase C)
                      (with_reply_info db (leftJoin_user db g))) rows"
    and "feed_pagination f =
           \<lparr>page = pg, limit = lmt, total = int (length (db_guestbook db)),
            totalPages = Math_ceil_div (int (length (db_guestbook db))) lmt,
            hasNext = js_less pg (Math_ceil_div (int (length (db_guestbook db))) lmt),
            hasPrev = (1 < pg)\<rparr>"
  using assms
  by (auto simp: getGuestbookEntries_def Let_def split: sum.splits)

lemma getGuestbookEntries_InrI:
  assumes "sel (db_guestbook db) lmt (js_offset pg lmt) = Inr rows"
  shows "\<exists>f. getGuestbookEntries sel C db pg lmt = Inr f"
  using assms by (simp add: getGuestbookEntries_def Let_def)

lemma stored_fields_entries:
  assumes "getGuestbookEntries sel C db pg lmt = Inr f"
  shows "sel (db_guestbook db) lmt (js_offset pg lmt) = Inr (map stored_fields (entries f))"
proof -
  from getGuestbookEntries_InrD[OF assms] obtain rows
    where "sel (db_guestbook db) lmt (js_offset pg lmt) = Inr rows"
      and "entries f =
             map (\<lambda>g. with_creator (map_option toLowerCase C)
                        (with_reply_info db (leftJoin_user db g))) rows"
    by blast
  then show ?thesis by (simp add: comp_def)
qed

lemma entry_of_feed:
  assumes "getGuestbookEntries sel C db pg lmt = Inr f" and "e \<in> set (entries f)"
  obtains g where
    "e = with_creator (map_option toLowerCase C) (with_reply_info db (leftJoin_user db g))"
proof -
  from getGuestbookEntries_InrD[OF assms(1)] obtain rows
    where "entries f =
             map (\<lambda>g. with_creator (map_option toLowerCase C)
                        (with_reply_info db (leftJoin_user db g))) rows"
    by blast
  with assms(2) that show thesis by auto
qed

lemma int64_select_page_in_range:
  assumes "0 \<le> l" and "l < 2 ^ 63" and "0 \<le> ofs" and "ofs < 2 ^ 63"
  shows "int64_select_page rows l ofs
           = Inr (take (nat l) (drop (nat ofs) (orderBy_desc_createdAt rows)))"
  using assms by (simp add: int64_select_page_def)

lemma int64_select_page_first:
  assumes "0 \<le> l" and "l < 2 ^ 63"
  shows "int64_select_page rows l (js_offset 1 l) = Inr (take (nat l) (orderBy_desc_createdAt rows))"
proof -
  have "js_offset 1 l = 0"
    by (simp add: js_offset_def js_minus_def js_times_def to_double_small)
  then show ?thesis
    using assms by (simp add: int64_select_page_in_range)
qed

section \<open>Facts about posting\<close>

lemma createGuestbookEntry_rejected:
  assumes "\<not> isValid (V msg (post_options replyTo))"
  shows "createGuestbookEntry V (Some s) newId now msg replyTo db
           = Inl (Error (join '', '' (errors (V msg (post_options replyTo)))))"
  using assms by (simp add: createGuestbookEntry_def createGuestbookEntry_on_def Let_def)

lemma createGuestbookEntry_accepted:
  assumes "isValid (V msg (post_options replyTo))"
    and "sanitizedContent (V msg (post_options replyTo)) = Some text"
  shows "createGuestbookEntry V (Some s) newId now msg replyTo db
           = Inr (insert_guestbook db
                    \<lparr>g_id = newId, g_message = text, g_createdAt = now,
                     g_userId = session_user_id s, g_replyToId = js_or replyTo None\<rparr>,
                  None)"
  using assms by (simp add: createGuestbookEntry_def createGuestbookEntry_on_def Let_def)

lemma createGuestbookEntry_InrD:
  assumes "createGuestbookEntry V sess newId now msg replyTo db = Inr (db', ret)"
  shows "\<exists>s text. sess = Some s \<and> isValid (V msg (post_options replyTo))
           \<and> sanitizedContent (V msg (post_options replyTo)) = Some text
           \<and> db' = insert_guestbook db
                    \<lparr>g_id = newId, g_message = text, g_createdAt = now,
                     g_userId = session_user_id s, g_replyToId = js_or replyTo None\<rparr>
           \<and> ret = None"
  using assms
  by (auto simp: createGuestbookEntry_def createGuestbookEntry_on_def Let_def
           split: option.splits if_splits)

lemma createGuestbookEntry_ignores_verification:
  "createGuestbookEntry V (Some (s\<lparr>session_user_emailVerified := b\<rparr>)) newId now msg replyTo db
     = createGuestbookEntry V (Some s) newId now msg replyTo db"
  by (simp add: createGuestbookEntry_def createGuestbookEntry_on_def Let_def
      split: option.splits)




section \<open>Facts about the validator of the specification\<close>

lemma validateMessageContent_too_long:
  assumes "maxLength opts < length (trim content)" and "minLength opts \<le> length (trim content)"
    and "\<not> containsLink (trim content)" and "\<not> containsProfanity (trim content)"
  shows "validateMessageContent containsLink containsProfanity content opts
           = \<lparr>isValid = False, errors = [''MAX_LENGTH''], sanitizedContent = None\<rparr>"
  using assms by (auto simp add: validateMessageContent_def Let_def)

lemma validateMessageContent_clean:
  assumes "length (trim content) \<le> maxLength opts" and "minLength opts \<le> length (trim content)"
    and "0 < length (trim content)"
    and "\<not> containsLink (trim content)" and "\<not> containsProfanity (trim content)"
  shows "validateMessageContent containsLink containsProfanity content opts
           = \<lparr>isValid = True, errors = [], sanitizedContent = Some (trim content)\<rparr>"
  using assms by (simp add: validateMessageContent_def Let_def)

section \<open>The sample data, evaluated\<close>

lemma sample_validator_hello:
  "sample_validator ''hello'' (post_options None)
     = \<lparr>isValid = True, errors = [], sanitizedContent = Some ''hello''\<rparr>"
  by code_simp

lemma sample_validator_hello_empty_target:
  "sample_validator ''hello'' (post_options (Some []))
     = \<lparr>isValid = True, errors = [], sanitizedContent = Some ''hello''\<rparr>"
  by code_simp

lemma sample_validator_thanks:
  "sample_validator ''thanks'' (post_options (Some ''m1''))
     = \<lparr>isValid = True, errors = [], sanitizedContent = Some ''thanks''\<rparr>"
  by code_simp


lemma sample_validator_long_link:
  "sample_validator long_link_text (post_options None)
     = \<lparr>isValid = False, errors = [''MAX_LENGTH'', ''LINKS_NOT_ALLOWED''],
        sanitizedContent = None\<rparr>"
  by code_simp




lemma author_label_leftJoin_sample:
  "author_label (leftJoin_user sample_db
      \<lparr>g_id = i, g_message = m, g_createdAt = t, g_userId = ''u1'', g_replyToId = r\<rparr>)
     = Some ''Alice''"
  "author_label (leftJoin_user sample_db
      \<lparr>g_id = i, g_message = m, g_createdAt = t, g_userId = ''u2'', g_replyToId = r\<rparr>)
     = Some ''bob''"
  by (simp_all add: author_label_def leftJoin_user_def sample_db_def small_db_def alice_def
      bob_def js_or_def)

lemma select_sample:
  "int64_select_page (db_guestbook sample_db) 50 (js_offset 1 50) =
     Inr [\<lparr>g_id = ''m3'', g_message = ''lost'', g_createdAt = 30, g_userId = ''u1'',
           g_replyToId = Some ''gone''\<rparr>,
          \<lparr>g_id = ''m2'', g_message = ''hi alice'', g_createdAt = 20, g_userId = ''u2'',
           g_replyToId = Some ''m1''\<rparr>,
          \<lparr>g_id = ''m1'', g_message = ''hello'', g_createdAt = 10, g_userId = ''u1'',
           g_replyToId = None\<rparr>]"
  by (simp add: int64_select_page_first sample_db_def small_db_def orderBy_desc_createdAt_def)

lemma select_ghost:
  "int64_select_page (db_guestbook ghost_db) 50 (js_offset 1 50) =
     Inr [\<lparr>g_id = ''m2'', g_message = ''hi there'', g_createdAt = 20, g_userId = ''u2'',
           g_replyToId = Some ''m1''\<rparr>,
          \<lparr>g_id = ''m1'', g_message = ''hello'', g_createdAt = 10, g_userId = ''u9'',
           g_replyToId = None\<rparr>]"
  by (simp add: int64_select_page_first ghost_db_def orderBy_desc_createdAt_def)

lemma feed_sample:
  obtains f where "getGuestbookEntries int64_select_page C sample_db 1 50 = Inr f"
    and "entries f =
           map (\<lambda>g. with_creator (map_option toLowerCase C)
                      (with_reply_info sample_db (leftJoin_user sample_db g)))
             [\<lparr>g_id = ''m3'', g_message = ''lost'', g_createdAt = 30, g_userId = ''u1'',
               g_replyToId = Some ''gone''\<rparr>,
              \<lparr>g_id = ''m2'', g_message = ''hi alice'', g_createdAt = 20, g_userId = ''u2'',
               g_replyToId = Some ''m1''\<rparr>,
              \<lparr>g_id = ''m1'', g_message = ''hello'', g_createdAt = 10, g_userId = ''u1'',
               g_replyToId = None\<rparr>]"
proof -
  from getGuestbookEntries_InrI[where sel = int64_select_page and db = sample_db and pg = 1
      and lmt = 50 and C = C, OF select_sample] obtain f
    where f: "getGuestbookEntries int64_select_page C sample_db 1 50 = Inr f" by blast
  from getGuestbookEntries_InrD[OF f] have
    "entries f =
       map (\<lambda>g. with_creator (map_option toLowerCase C)
                  (with_reply_info sample_db (leftJoin_user sample_db g)))
         [\<lparr>g_id = ''m3'', g_message = ''lost'', g_createdAt = 30, g_userId = ''u1'',
           g_replyToId = Some ''gone''\<rparr>,
          \<lparr>g_id = ''m2'', g_message = ''hi alice'', g_createdAt = 20, g_userId = ''u2'',
           g_replyToId = Some ''m1''\<rparr>,
          \<lparr>g_id = ''m1'', g_message = ''hello'', g_createdAt = 10, g_userId = ''u1'',
           g_replyToId = None\<rparr>]"
    by (auto simp: select_sample)
  with f that show thesis by blast
qed

lemma feed_ghost:
  obtains f where "getGuestbookEntries int64_select_page C ghost_db 1 50 = Inr f"
    and "entries f =
           map (\<lambda>g. with_creator (map_option toLowerCase C)
                      (with_reply_info ghost_db (leftJoin_user ghost_db g)))
             [\<lparr>g_id = ''m2'', g_message = ''hi there'', g_createdAt = 20, g_userId = ''u2'',
               g_replyToId = Some ''m1''\<rparr>,
              \<lparr>g_id = ''m1'', g_message = ''hello'', g_createdAt = 10, g_userId = ''u9'',
               g_replyToId = None\<rparr>]"
proof -
  from getGuestbookEntries_InrI[where sel = int64_select_page and db = ghost_db and pg = 1
      and lmt = 50 and C = C, OF select_ghost] obtain f
    where f: "getGuestbookEntries int64_select_page C ghost_db 1 50 = Inr f" by blast
  from getGuestbookEntries_InrD[OF f] have
    "entries f =
       map (\<lambda>g. with_creator (map_option toLowerCase C)
                  (with_reply_info ghost_db (leftJoin_user ghost_db g)))
         [\<lparr>g_id = ''m2'', g_message = ''hi there'', g_createdAt = 20, g_userId = ''u2'',
           g_replyToId = Some ''m1''\<rparr>,
          \<lparr>g_id = ''m1'', g_message = ''hello'', g_createdAt = 10, g_userId = ''u9'',
           g_replyToId = None\<rparr>]"
    by (auto simp: select_ghost)
  with f that show thesis by blast
qed

lemma author_label_leftJoin_ghost:
  "author_label (leftJoin_user ghost_db
      \<lparr>g_id = i, g_message = m, g_createdAt = t, g_userId = ''u9'', g_replyToId = r\<rparr>)
     = None"
  by (simp add: author_label_def leftJoin_user_def ghost_db_def alice_def bob_def js_or_def)

section \<open>The claims\<close>

text \<open>
  C1. A session that may not post (\<open>canPost\<close> is false) is to be refused with NotVerified
  and nothing is to be inserted. \<open>createGuestbookEntry\<close> never reads the verification flag:
  for the unverified sample session, to which \<open>Home\<close> does not offer the form, the call
  succeeds and the table has one more row.
\<close>

theorem createGuestbookEntry_unverified_inserts:
  "\<not> canPost unverified_session \<and> \<not> Home_offers_posting (Some unverified_session) \<and>
   createGuestbookEntry sample_validator (Some unverified_session) ''m3'' 30 ''hello'' None
       small_db
     = Inr (insert_guestbook small_db
              \<lparr>g_id = ''m3'', g_message = ''hello'', g_createdAt = 30, g_userId = ''u2'',
               g_replyToId = None\<rparr>,
            None)"
  by (simp add: canPost_def Home_offers_posting_def unverified_session_def
      createGuestbookEntry_def createGuestbookEntry_on_def sample_validator_hello js_or_def)

text \<open>
  C2. As stated, the error of a rejected text carries the list of reason codes and never
  one merged message. The sample text breaks two rules, and the error raised is the single
  string made of both codes.
\<close>

theorem validation_error_merged_counterexample:
  "errors (sample_validator long_link_text (post_options None))
     = [''MAX_LENGTH'', ''LINKS_NOT_ALLOWED''] \<and>
   createGuestbookEntry sample_validator (Some verified_session) ''m3'' 30 long_link_text None
       small_db
     = Inl (Error ''MAX_LENGTH, LINKS_NOT_ALLOWED'')"
  by (simp add: createGuestbookEntry_def createGuestbookEntry_on_def sample_validator_long_link)

text \<open>
  C2, amended. For every validator and every text it rejects, the error raised for a
  signed-in caller is one message: the validator's error strings, all of them and in its
  order, joined with a comma and a space. Every one of them occurs in the message.
\<close>

theorem validation_error_message:
  assumes "\<not> isValid (V msg (post_options replyTo))"
  shows "createGuestbookEntry V (Some s) newId now msg replyTo db
           = Inl (Error (join '', '' (errors (V msg (post_options replyTo)))))
         \<and> (\<forall>e \<in> set (errors (V msg (post_options replyTo))).
               sublist e (join '', '' (errors (V msg (post_options replyTo)))))"
  using assms sublist_join
  by (simp add: createGuestbookEntry_rejected[where V = V])

theorem validation_error_message_witness:
  "createGuestbookEntry sample_validator (Some unverified_session) ''m9'' 90 long_link_text None
       sample_db
     = Inl (Error ''MAX_LENGTH, LINKS_NOT_ALLOWED'')
   \<and> sublist ''MAX_LENGTH'' ''MAX_LENGTH, LINKS_NOT_ALLOWED''
   \<and> sublist ''LINKS_NOT_ALLOWED'' ''MAX_LENGTH, LINKS_NOT_ALLOWED''"
proof -
  have "\<not> isValid (sample_validator long_link_text (post_options None))"
    by (simp add: sample_validator_long_link)
  from validation_error_message[where V = sample_validator and msg = long_link_text
      and replyTo = None and s = unverified_session and newId = "''m9''" and now = 90
      and db = sample_db, OF this]
  show ?thesis by (simp add: sample_validator_long_link)
qed

text \<open>
  C3. As stated, a successful post returns a view of the new message. The function has no
  return value: the successful sample call resolves to \<open>undefined\<close>.
\<close>

theorem createGuestbookEntry_returns_no_view_counterexample:
  "createGuestbookEntry sample_validator (Some verified_session) ''m3'' 30 ''hello'' None
       small_db
     = Inr (insert_guestbook small_db
              \<lparr>g_id = ''m3'', g_message = ''hello'', g_createdAt = 30, g_userId = ''u1'',
               g_replyToId = None\<rparr>,
            None)
   \<and> \<not> (\<exists>db' view.
          createGuestbookEntry sample_validator (Some verified_session) ''m3'' 30 ''hello'' None
              small_db
            = Inr (db', Some view))"
  by (simp add: verified_session_def createGuestbookEntry_def createGuestbookEntry_on_def
      sample_validator_hello js_or_def)

text \<open>
  C3, amended. For a signed-in caller and a text the validator accepts with sanitized
  content, the call succeeds, returns no value, and appends exactly one row to the
  guestbook table: the new id, the sanitized text, the creation time, the caller's user id
  and the reply target, which is null when the argument is absent or empty. The user table
  is untouched.
\<close>

theorem createGuestbookEntry_success:
  assumes "isValid (V msg (post_options replyTo))"
    and "sanitizedContent (V msg (post_options replyTo)) = Some text"
  shows "\<exists>db'. createGuestbookEntry V (Some s) newId now msg replyTo db = Inr (db', None)
           \<and> db_guestbook db' = db_guestbook db @
                [\<lparr>g_id = newId, g_message = text, g_createdAt = now,
                  g_userId = session_user_id s,
                  g_replyToId = (if truthy replyTo then replyTo else None)\<rparr>]
           \<and> db_user db' = db_user db"
  using createGuestbookEntry_accepted[where V = V, OF assms]
  by (simp add: insert_guestbook_def js_or_def)

theorem createGuestbookEntry_success_witness:
  "\<exists>db'. createGuestbookEntry sample_validator (Some verified_session) ''m3'' 30 ''thanks''
            (Some ''m1'') small_db = Inr (db', None)
     \<and> db_guestbook db' = db_guestbook small_db @
          [\<lparr>g_id = ''m3'', g_message = ''thanks'', g_createdAt = 30, g_userId = ''u1'',
            g_replyToId = Some ''m1''\<rparr>]
     \<and> db_user db' = db_user small_db"
proof -
  have "isValid (sample_validator ''thanks'' (post_options (Some ''m1'')))"
    and "sanitizedContent (sample_validator ''thanks'' (post_options (Some ''m1'')))
           = Some ''thanks''"
    by (simp_all add: sample_validator_thanks)
  from createGuestbookEntry_success[where V = sample_validator and msg = "''thanks''"
      and replyTo = "Some ''m1''" and s = verified_session and newId = "''m3''" and now = 30
      and db = small_db, OF this]
  show ?thesis by (simp add: verified_session_def)
qed



text \<open>
  C5. As stated, every page number of at least 1 and every positive page size give a feed.
  On a store with 64-bit limits and offsets, page 3 with a page size of \<open>2^62\<close> asks for the
  offset \<open>2^63\<close>, which the store refuses: the call fails.
\<close>

theorem getGuestbookEntries_offset_counterexample:
  "js_offset 3 (2 ^ 62) = 2 ^ 63 \<and>
   getGuestbookEntries int64_select_page None sample_db 3 (2 ^ 62) = Inl StorageFailure"
  unfolding getGuestbookEntries_def Let_def js_offset_3_pow62 int64_select_page_def by simp

text \<open>
  C5, amended. For a table of fewer than \<open>2^53\<close> rows, a page number of at least 1 and a
  positive page size such that the page size and the offset \<open>(page - 1) * limit\<close>, as the
  code computes it, are below \<open>2^63\<close>, the feed is returned, holds at most page-size entries, and its pagination gives the number
  of all rows of the table as the total, the ceiling of total by page size as the number
  of pages, a next page exactly when the page number is below that, and a previous page
  exactly when it is above 1.
\<close>

theorem getGuestbookEntries_pagination:
  assumes "1 \<le> pg" and "0 < lmt" and "lmt < 2 ^ 63" and "js_offset pg lmt < 2 ^ 63"
    and "length (db_guestbook db) < 2 ^ 53"
  shows "\<exists>f. getGuestbookEntries int64_select_page C db pg lmt = Inr f
           \<and> int (length (entries f)) \<le> lmt
           \<and> total (feed_pagination f) = int (length (db_guestbook db))
           \<and> totalPages (feed_pagination f)
               = Num \<lceil>real_of_int (total (feed_pagination f)) / real_of_int lmt\<rceil>
           \<and> hasNext (feed_pagination f)
               = (pg < \<lceil>real_of_int (total (feed_pagination f)) / real_of_int lmt\<rceil>)
           \<and> hasPrev (feed_pagination f) = (1 < pg)"
proof -
  let ?rows = "take (nat lmt) (drop (nat (js_offset pg lmt))
                 (orderBy_desc_createdAt (db_guestbook db)))"
  have "0 \<le> js_offset pg lmt"
    using assms(1,2) by (simp add: js_offset_nonneg)
  with assms(2,3,4)
  have sel: "int64_select_page (db_guestbook db) lmt (js_offset pg lmt) = Inr ?rows"
    by (simp add: int64_select_page_in_range)
  from getGuestbookEntries_InrI[where sel = int64_select_page and db = db and pg = pg
      and lmt = lmt and C = C, OF sel]
  obtain f where f: "getGuestbookEntries int64_select_page C db pg lmt = Inr f" by blast
  from getGuestbookEntries_InrD[OF f] obtain rows
    where rows: "int64_select_page (db_guestbook db) lmt (js_offset pg lmt) = Inr rows"
      and es: "entries f =
                 map (\<lambda>g. with_creator (map_option toLowerCase C)
                            (with_reply_info db (leftJoin_user db g))) rows"
      and p: "feed_pagination f =
                \<lparr>page = pg, limit = lmt, total = int (length (db_guestbook db)),
                 totalPages = Math_ceil_div (int (length (db_guestbook db))) lmt,
                 hasNext = js_less pg (Math_ceil_div (int (length (db_guestbook db))) lmt),
                 hasPrev = (1 < pg)\<rparr>"
    by blast
  from rows sel have "rows = ?rows" by simp
  then have "length (entries f) \<le> nat lmt"
    by (simp add: es)
  then have len: "int (length (entries f)) \<le> lmt"
    using assms(2) by linarith
  have ne: "lmt \<noteq> 0" using assms(2) by simp
  show ?thesis
    using f len by (auto simp: p Math_ceil_div_ceiling[OF ne] js_less_def)
qed

theorem getGuestbookEntries_pagination_witness:
  "\<exists>f. getGuestbookEntries int64_select_page (Some ''ALICE'') sample_db 2 2 = Inr f
      \<and> int (length (entries f)) \<le> 2
      \<and> total (feed_pagination f) = 3
      \<and> totalPages (feed_pagination f) = Num 2
      \<and> hasNext (feed_pagination f) = False
      \<and> hasPrev (feed_pagination f) = True"
proof -
  have ofs: "js_offset 2 2 = 2"
    using js_offset_exact[of 2 2] by simp
  have "(1::int) \<le> 2" and "(0::int) < 2" and "(2::int) < 2 ^ 63" and "js_offset 2 2 < 2 ^ 63"
    and "length (db_guestbook sample_db) < 2 ^ 53"
    by (simp_all add: ofs sample_db_def small_db_def)
  from getGuestbookEntries_pagination[where C = "Some ''ALICE''" and db = sample_db, OF this]
  obtain f where f: "getGuestbookEntries int64_select_page (Some ''ALICE'') sample_db 2 2 = Inr f"
    and len: "int (length (entries f)) \<le> 2"
    and tot: "total (feed_pagination f) = int (length (db_guestbook sample_db))"
    and pages: "totalPages (feed_pagination f)
                  = Num \<lceil>real_of_int (total (feed_pagination f)) / real_of_int 2\<rceil>"
    and nxt: "hasNext (feed_pagination f)
                = (2 < \<lceil>real_of_int (total (feed_pagination f)) / real_of_int 2\<rceil>)"
    and prv: "hasPrev (feed_pagination f) = (1 < (2::int))"
    by auto
  have tot3: "total (feed_pagination f) = 3"
    using tot by (simp add: sample_db_def small_db_def)
  have pages2: "totalPages (feed_pagination f) = Num 2"
    using pages by (simp add: tot3)
  have nxt2: "hasNext (feed_pagination f) = False"
    using nxt by (simp add: tot3)
  show ?thesis
    using f len tot3 pages2 nxt2 prv by simp
qed

text \<open>
  C6. As stated, an entry whose reply target exists carries the parent's text and the
  parent's author label. In the sample table the parent \<open>m1\<close> exists, its author has no row
  in the user table, and the reply \<open>m2\<close> carries the parent's text and no author label.
\<close>

theorem reply_label_absent_counterexample:
  "\<exists>f. getGuestbookEntries int64_select_page None ghost_db 1 50 = Inr f
      \<and> replyToId (entries f ! 0) = Some ''m1''
      \<and> find (\<lambda>g. g_id g = ''m1'') (db_guestbook ghost_db)
          = Some \<lparr>g_id = ''m1'', g_message = ''hello'', g_createdAt = 10, g_userId = ''u9'',
                  g_replyToId = None\<rparr>
      \<and> replyToMessage (entries f ! 0) = Some ''hello''
      \<and> replyToUsername (entries f ! 0) = None"
proof -
  from feed_ghost[of None] obtain f
    where f: "getGuestbookEntries int64_select_page None ghost_db 1 50 = Inr f"
      and es: "entries f =
                 map (\<lambda>g. with_creator (map_option toLowerCase None)
                            (with_reply_info ghost_db (leftJoin_user ghost_db g)))
                   [\<lparr>g_id = ''m2'', g_message = ''hi there'', g_createdAt = 20,
                     g_userId = ''u2'', g_replyToId = Some ''m1''\<rparr>,
                    \<lparr>g_id = ''m1'', g_message = ''hello'', g_createdAt = 10,
                     g_userId = ''u9'', g_replyToId = None\<rparr>]"
    by blast
  have parent: "find (\<lambda>g. g_id g = ''m1'') (db_guestbook ghost_db)
                  = Some \<lparr>g_id = ''m1'', g_message = ''hello'', g_createdAt = 10,
                          g_userId = ''u9'', g_replyToId = None\<rparr>"
    by (simp add: ghost_db_def)
  have r: "replyToId (leftJoin_user ghost_db
              \<lparr>g_id = ''m2'', g_message = ''hi there'', g_createdAt = 20,
               g_userId = ''u2'', g_replyToId = Some ''m1''\<rparr>) = Some ''m1''"
    by simp
  have ne: "''m1'' \<noteq> []" by simp
  note res = reply_info_resolved[OF r ne, of ghost_db]
  show ?thesis
    using f by (simp add: es res parent author_label_leftJoin_ghost)
qed

text \<open>
  C6, amended. For every entry of a feed page with a reply target (a non-empty
  \<open>replyToId\<close>): when a message with that id is in the table, the entry carries that
  message's text, and as author label the parent's \<open>displayUsername || username || name\<close>,
  which is absent or empty when the parent's author has no user row or no such name; when
  no message has that id, both are absent. Either way the entry is on the page with its
  \<open>replyToId\<close>: the page has one entry per row the store selected, with the row's reply
  target.
\<close>

theorem reply_parent_resolution:
  assumes "getGuestbookEntries sel C db pg lmt = Inr f"
    and "e \<in> set (entries f)"
    and "replyToId e = Some r" and "r \<noteq> []"
  shows "(case find (\<lambda>g. g_id g = r) (db_guestbook db) of
            Some parent \<Rightarrow>
              replyToMessage e = Some (g_message parent) \<and>
              replyToUsername e = author_label (leftJoin_user db parent)
          | None \<Rightarrow> replyToMessage e = None \<and> replyToUsername e = None)
         \<and> (r \<notin> set (map g_id (db_guestbook db))
              \<longrightarrow> replyToMessage e = None \<and> replyToUsername e = None)
         \<and> (\<exists>rows. sel (db_guestbook db) lmt (js_offset pg lmt) = Inr rows
                \<and> map replyToId (entries f) = map g_replyToId rows)"
proof -
  from entry_of_feed[OF assms(1,2)] obtain g
    where e: "e = with_creator (map_option toLowerCase C)
                    (with_reply_info db (leftJoin_user db g))"
    by blast
  let ?j = "leftJoin_user db g"
  have r: "replyToId ?j = Some r" using assms(3) by (simp add: e)
  note res = reply_info_resolved[OF r assms(4), of db]
  have absent: "find (\<lambda>g. g_id g = r) (db_guestbook db) = None"
    if "r \<notin> set (map g_id (db_guestbook db))"
    using that by (auto simp: find_None_iff)
  from getGuestbookEntries_InrD[OF assms(1)] obtain rows
    where rows: "sel (db_guestbook db) lmt (js_offset pg lmt) = Inr rows"
      and es: "entries f =
                 map (\<lambda>g. with_creator (map_option toLowerCase C)
                            (with_reply_info db (leftJoin_user db g))) rows"
    by blast
  have "map replyToId (entries f) = map g_replyToId rows"
    by (simp add: es comp_def)
  with rows have "\<exists>rows. sel (db_guestbook db) lmt (js_offset pg lmt) = Inr rows
                    \<and> map replyToId (entries f) = map g_replyToId rows"
    by blast
  then show ?thesis
    using absent by (auto simp: e res split: option.splits)
qed

theorem reply_parent_resolution_witness:
  "\<exists>f. getGuestbookEntries int64_select_page None sample_db 1 50 = Inr f
      \<and> replyToId (entries f ! 1) = Some ''m1''
      \<and> replyToMessage (entries f ! 1) = Some ''hello''
      \<and> replyToUsername (entries f ! 1) = Some ''Alice''
      \<and> replyToId (entries f ! 0) = Some ''gone''
      \<and> replyToMessage (entries f ! 0) = None
      \<and> replyToUsername (entries f ! 0) = None
      \<and> map replyToId (entries f) = [Some ''gone'', Some ''m1'', None]"
proof -
  from feed_sample[of None] obtain f
    where f: "getGuestbookEntries int64_select_page None sample_db 1 50 = Inr f"
      and es: "entries f =
                 map (\<lambda>g. with_creator (map_option toLowerCase None)
                            (with_reply_info sample_db (leftJoin_user sample_db g)))
                   [\<lparr>g_id = ''m3'', g_message = ''lost'', g_createdAt = 30,
                     g_userId = ''u1'', g_replyToId = Some ''gone''\<rparr>,
                    \<lparr>g_id = ''m2'', g_message = ''hi alice'', g_createdAt = 20,
                     g_userId = ''u2'', g_replyToId = Some ''m1''\<rparr>,
                    \<lparr>g_id = ''m1'', g_message = ''hello'', g_createdAt = 10,
                     g_userId = ''u1'', g_replyToId = None\<rparr>]"
    by blast
  have in0: "entries f ! 0 \<in> set (entries f)" and in1: "entries f ! 1 \<in> set (entries f)"
    by (simp_all add: es)
  have r0: "replyToId (entries f ! 0) = Some ''gone''"
    and r1: "replyToId (entries f ! 1) = Some ''m1''"
    by (simp_all add: es)
  have all: "map replyToId (entries f) = [Some ''gone'', Some ''m1'', None]"
    by (simp add: es)
  have find0: "find (\<lambda>g. g_id g = ''gone'') (db_guestbook sample_db) = None"
    and find1: "find (\<lambda>g. g_id g = ''m1'') (db_guestbook sample_db)
                  = Some \<lparr>g_id = ''m1'', g_message = ''hello'', g_createdAt = 10,
                          g_userId = ''u1'', g_replyToId = None\<rparr>"
    by (simp_all add: sample_db_def small_db_def)
  have ne0: "''gone'' \<noteq> []" and ne1: "''m1'' \<noteq> []" by simp_all
  from reply_parent_resolution[where sel = int64_select_page, OF f in0 r0 ne0]
  have a0: "replyToMessage (entries f ! 0) = None \<and> replyToUsername (entries f ! 0) = None"
    by (simp add: find0)
  from reply_parent_resolution[where sel = int64_select_page, OF f in1 r1 ne1]
  have a1: "replyToMessage (entries f ! 1) = Some ''hello''
            \<and> replyToUsername (entries f ! 1) = Some ''Alice''"
    by (simp add: find1 author_label_leftJoin_sample)
  show ?thesis
    using f r0 r1 a0 a1 all by (intro exI[of _ f]) simp
qed

text \<open>
  C7. The maximum length of a root message (200) is below that of a reply (1000). A text
  whose trimmed length lies between the two, 250 for one, and which holds no link and no
  profanity, is rejected as a root message with the length reason and accepted as a reply,
  which stores the trimmed text.
\<close>

theorem root_limit_shorter_than_reply_limit:
  assumes "200 < length (trim content)" and "length (trim content) \<le> 1000"
    and "\<not> containsLink (trim content)" and "\<not> containsProfanity (trim content)"
    and "r \<noteq> []"
  shows "maxLength (post_options None) = 200 \<and> maxLength (post_options (Some r)) = 1000
         \<and> errors (validateMessageContent containsLink containsProfanity content
                     (post_options None)) = [''MAX_LENGTH'']
         \<and> createGuestbookEntry (validateMessageContent containsLink containsProfanity)
               (Some s) newId now content None db
             = Inl (Error ''MAX_LENGTH'')
         \<and> createGuestbookEntry (validateMessageContent containsLink containsProfanity)
               (Some s) newId now content (Some r) db
             = Inr (insert_guestbook db
                      \<lparr>g_id = newId, g_message = trim content, g_createdAt = now,
                       g_userId = session_user_id s, g_replyToId = Some r\<rparr>,
                    None)"
proof -
  let ?V = "validateMessageContent containsLink containsProfanity"
  have root: "?V content (post_options None)
                = \<lparr>isValid = False, errors = [''MAX_LENGTH''], sanitizedContent = None\<rparr>"
    using assms by (intro validateMessageContent_too_long) (simp_all add: post_options_def)
  have reply: "?V content (post_options (Some r))
                 = \<lparr>isValid = True, errors = [], sanitizedContent = Some (trim content)\<rparr>"
    using assms by (intro validateMessageContent_clean) (auto simp add: post_options_def)
  have "createGuestbookEntry ?V (Some s) newId now content None db = Inl (Error ''MAX_LENGTH'')"
    by (simp add: createGuestbookEntry_def createGuestbookEntry_on_def root)
  moreover have "createGuestbookEntry ?V (Some s) newId now content (Some r) db
                   = Inr (insert_guestbook db
                            \<lparr>g_id = newId, g_message = trim content, g_createdAt = now,
                             g_userId = session_user_id s, g_replyToId = Some r\<rparr>,
                          None)"
    using assms(5) by (simp add: createGuestbookEntry_def createGuestbookEntry_on_def reply js_or_def)
  moreover have "errors (?V content (post_options None)) = [''MAX_LENGTH'']"
    by (simp add: root)
  moreover have "maxLength (post_options None) = 200"
    and "maxLength (post_options (Some r)) = 1000"
    using assms(5) by (simp_all add: post_options_def)
  ultimately show ?thesis by simp
qed

theorem root_limit_shorter_than_reply_limit_witness:
  "length long_text = 250
   \<and> createGuestbookEntry sample_validator (Some verified_session) ''m3'' 30 long_text None
         small_db
       = Inl (Error ''MAX_LENGTH'')
   \<and> createGuestbookEntry sample_validator (Some verified_session) ''m3'' 30 long_text
         (Some ''m1'') small_db
       = Inr (insert_guestbook small_db
                \<lparr>g_id = ''m3'', g_message = long_text, g_createdAt = 30, g_userId = ''u1'',
                 g_replyToId = Some ''m1''\<rparr>,
              None)"
proof -
  have t: "trim long_text = long_text"
    unfolding long_text_def by (rule trim_replicate) (simp add: is_space_def)
  have len: "length long_text = 250"
    by (simp add: long_text_def)
  have nolink: "\<not> mentions ''http'' long_text"
    by code_simp
  have "200 < length (trim long_text)" "length (trim long_text) \<le> 1000"
    "\<not> mentions ''http'' (trim long_text)" "\<not> (\<lambda>t. False) (trim long_text)" "''m1'' \<noteq> []"
    using nolink by (simp_all add: t len)
  from root_limit_shorter_than_reply_limit[where containsLink = "mentions ''http''"
      and containsProfanity = "\<lambda>t. False" and content = long_text and r = "''m1''"
      and s = verified_session and newId = "''m3''" and now = 30 and db = small_db, OF this]
  show ?thesis
    by (simp add: t len sample_validator_def verified_session_def)
qed

text \<open>
  C8. The flag is to hold exactly when the author label equals the creator label up to
  letter case. \<open>getGuestbookEntries\<close> computes it so, but \<open>Home\<close> does not read that flag: it
  computes its own with \<open>===\<close>. For the creator name \<open>ALICE\<close> the entry of \<open>Alice\<close> has the flag of
  the feed, and \<open>Home\<close> computes false for it.
\<close>

theorem Home_isCreator_case_sensitive:
  "\<exists>f. getGuestbookEntries int64_select_page (Some ''ALICE'') sample_db 1 50 = Inr f
      \<and> author_label (entries f ! 2) = Some ''Alice''
      \<and> equal_ignoring_case ''Alice'' ''ALICE''
      \<and> isCreator (entries f ! 2)
      \<and> \<not> Home_isCreator (Some ''ALICE'') (entries f ! 2)"
proof -
  from feed_sample[of "Some ''ALICE''"] obtain f
    where f: "getGuestbookEntries int64_select_page (Some ''ALICE'') sample_db 1 50 = Inr f"
      and es: "entries f =
                 map (\<lambda>g. with_creator (map_option toLowerCase (Some ''ALICE''))
                            (with_reply_info sample_db (leftJoin_user sample_db g)))
                   [\<lparr>g_id = ''m3'', g_message = ''lost'', g_createdAt = 30,
                     g_userId = ''u1'', g_replyToId = Some ''gone''\<rparr>,
                    \<lparr>g_id = ''m2'', g_message = ''hi alice'', g_createdAt = 20,
                     g_userId = ''u2'', g_replyToId = Some ''m1''\<rparr>,
                    \<lparr>g_id = ''m1'', g_message = ''hello'', g_createdAt = 10,
                     g_userId = ''u1'', g_replyToId = None\<rparr>]"
    by blast
  have l: "author_label (entries f ! 2) = Some ''Alice''"
    by (simp add: es author_label_leftJoin_sample)
  have ci: "equal_ignoring_case ''Alice'' ''ALICE''"
    by code_simp
  then have lower: "toLowerCase ''Alice'' = toLowerCase ''ALICE''"
    by (simp add: toLowerCase_eq_iff)
  have "isCreator (entries f ! 2)"
    using lower by (simp add: es author_label_leftJoin_sample)
  moreover have "\<not> Home_isCreator (Some ''ALICE'') (entries f ! 2)"
    using l by (simp add: Home_isCreator_def js_or_def)
  ultimately show ?thesis using f l ci by (intro exI[of _ f]) simp
qed

text \<open>
  C9. Choosing "ignore" on a label makes one call of the update with a whole new list:
  the current list without the label when the label is in it, the current list with the
  label appended when it is not.
\<close>

theorem handleUsernameAction_toggle:
  assumes "currentIgnored p = L"
  shows "\<exists>newIgnored.
           handleUsernameAction p u Ignore = UpdateIgnoredUsers newIgnored
           \<and> (u \<in> set L \<longrightarrow> newIgnored = removeAll u L \<and> u \<notin> set newIgnored)
           \<and> (u \<notin> set L \<longrightarrow> newIgnored = L @ [u])"
proof -
  have "filter (\<lambda>x. x \<noteq> u) L = removeAll u L"
    by (induction L) auto
  then show ?thesis
    using assms by (auto simp: handleUsernameAction_def Let_def)
qed

theorem handleUsernameAction_toggle_witness:
  "handleUsernameAction (Some \<lparr>ignoredUsers = Some [''alice'', ''bob'']\<rparr>) ''alice'' Ignore
     = UpdateIgnoredUsers [''bob'']
   \<and> handleUsernameAction (Some \<lparr>ignoredUsers = Some [''alice'', ''bob'']\<rparr>) ''carol'' Ignore
     = UpdateIgnoredUsers [''alice'', ''bob'', ''carol'']
   \<and> handleUsernameAction None ''carol'' Ignore = UpdateIgnoredUsers [''carol'']"
proof -
  have c: "currentIgnored (Some \<lparr>ignoredUsers = Some [''alice'', ''bob'']\<rparr>) = [''alice'', ''bob'']"
    and n: "currentIgnored None = []"
    by (simp_all add: currentIgnored_def)
  from handleUsernameAction_toggle[OF c, of "''alice''"]
    handleUsernameAction_toggle[OF c, of "''carol''"]
    handleUsernameAction_toggle[OF n, of "''carol''"]
  show ?thesis by auto
qed

text \<open>
  C10. When \<open>CREATOR_USERNAME\<close> is unset or empty, no entry of any feed page has the
  \<open>isCreator\<close> flag, whatever its author label and whatever rows the store selected.
\<close>

theorem no_creator_configured:
  assumes "C = None \<or> C = Some []"
    and "getGuestbookEntries sel C db pg lmt = Inr f"
    and "e \<in> set (entries f)"
  shows "\<not> isCreator e"
proof -
  from entry_of_feed[OF assms(2,3)] obtain g
    where e: "e = with_creator (map_option toLowerCase C)
                    (with_reply_info db (leftJoin_user db g))"
    by blast
  have "\<not> truthy (map_option toLowerCase C)"
    using assms(1) by auto
  then show ?thesis by (simp add: e)
qed

theorem no_creator_configured_witness:
  "\<exists>f f'. getGuestbookEntries int64_select_page None sample_db 1 50 = Inr f
      \<and> getGuestbookEntries int64_select_page (Some []) sample_db 1 50 = Inr f'
      \<and> length (entries f) = 3 \<and> length (entries f') = 3
      \<and> \<not> isCreator (entries f ! 0) \<and> \<not> isCreator (entries f' ! 1)"
proof -
  from feed_sample[of None] obtain f
    where f: "getGuestbookEntries int64_select_page None sample_db 1 50 = Inr f"
      and len: "length (entries f) = 3"
    by (metis (no_types, lifting) length_map length_Cons list.size(3) numeral_3_eq_3)
  from feed_sample[of "Some []"] obtain f'
    where f': "getGuestbookEntries int64_select_page (Some []) sample_db 1 50 = Inr f'"
      and len': "length (entries f') = 3"
    by (metis (no_types, lifting) length_map length_Cons list.size(3) numeral_3_eq_3)
  have in0: "entries f ! 0 \<in> set (entries f)" and in1: "entries f' ! 1 \<in> set (entries f')"
    by (simp_all add: len len')
  have c: "(None :: string option) = None \<or> None = Some []"
    and c': "Some [] = (None :: string option) \<or> Some [] = Some ([] :: string)"
    by simp_all
  from no_creator_configured[where sel = int64_select_page, OF c f in0]
    no_creator_configured[where sel = int64_select_page, OF c' f' in1]
  show ?thesis
    using f f' len len' by (intro exI[of _ f] exI[of _ f']) simp
qed

section \<open>Further properties\<close>

text \<open>
  The flag of the feed. With a creator label configured, and for ASCII labels, the
  \<open>isCreator\<close> flag of every entry of a feed page is true exactly when the entry has an
  author label and that label equals the creator label up to the case of its letters. The
  flag is added to the entry: the stored columns the page carries are those of the rows
  the store selected.
\<close>

theorem isCreator_case_insensitive:
  assumes "getGuestbookEntries sel (Some c) db pg lmt = Inr f"
    and "c \<noteq> []" and "is_ascii c"
    and "e \<in> set (entries f)"
    and "case author_label e of None \<Rightarrow> True | Some l \<Rightarrow> is_ascii l"
  shows "(isCreator e \<longleftrightarrow> (\<exists>l. author_label e = Some l \<and> equal_ignoring_case l c))
         \<and> sel (db_guestbook db) lmt (js_offset pg lmt) = Inr (map stored_fields (entries f))"
proof -
  from entry_of_feed[OF assms(1,4)] obtain g
    where e: "e = with_creator (map_option toLowerCase (Some c))
                    (with_reply_info db (leftJoin_user db g))"
    by blast
  have "isCreator e \<longleftrightarrow> map_option toLowerCase (author_label e) = Some (toLowerCase c)"
    using assms(2) by (simp add: e)
  also have "\<dots> \<longleftrightarrow> (\<exists>l. author_label e = Some l \<and> toLowerCase l = toLowerCase c)"
    by (cases "author_label e") auto
  finally show ?thesis
    by (simp add: toLowerCase_eq_iff stored_fields_entries[OF assms(1)])
qed

theorem isCreator_case_insensitive_witness:
  "\<exists>f. getGuestbookEntries int64_select_page (Some ''ALICE'') sample_db 1 50 = Inr f
      \<and> author_label (entries f ! 2) = Some ''Alice'' \<and> isCreator (entries f ! 2)
      \<and> author_label (entries f ! 1) = Some ''bob'' \<and> \<not> isCreator (entries f ! 1)"
proof -
  from feed_sample[of "Some ''ALICE''"] obtain f
    where f: "getGuestbookEntries int64_select_page (Some ''ALICE'') sample_db 1 50 = Inr f"
      and es: "entries f =
                 map (\<lambda>g. with_creator (map_option toLowerCase (Some ''ALICE''))
                            (with_reply_info sample_db (leftJoin_user sample_db g)))
                   [\<lparr>g_id = ''m3'', g_message = ''lost'', g_createdAt = 30,
                     g_userId = ''u1'', g_replyToId = Some ''gone''\<rparr>,
                    \<lparr>g_id = ''m2'', g_message = ''hi alice'', g_createdAt = 20,
                     g_userId = ''u2'', g_replyToId = Some ''m1''\<rparr>,
                    \<lparr>g_id = ''m1'', g_message = ''hello'', g_createdAt = 10,
                     g_userId = ''u1'', g_replyToId = None\<rparr>]"
    by blast
  have in1: "entries f ! 1 \<in> set (entries f)" and in2: "entries f ! 2 \<in> set (entries f)"
    by (simp_all add: es)
  have l1: "author_label (entries f ! 1) = Some ''bob''"
    and l2: "author_label (entries f ! 2) = Some ''Alice''"
    by (simp_all add: es author_label_leftJoin_sample)
  have ci: "equal_ignoring_case ''Alice'' ''ALICE''" "\<not> equal_ignoring_case ''bob'' ''ALICE''"
    by code_simp+
  have ascii: "is_ascii ''ALICE''" "is_ascii ''Alice''" "is_ascii ''bob''"
    by code_simp+
  have ne: "''ALICE'' \<noteq> []" by simp
  have a1: "case author_label (entries f ! 1) of None \<Rightarrow> True | Some l \<Rightarrow> is_ascii l"
    and a2: "case author_label (entries f ! 2) of None \<Rightarrow> True | Some l \<Rightarrow> is_ascii l"
    using ascii by (simp_all only: l1 l2 option.case)
  from isCreator_case_insensitive[where sel = int64_select_page, OF f ne ascii(1) in1 a1]
  have c1: "\<not> isCreator (entries f ! 1)"
    using ci by (simp only: l1) simp
  from isCreator_case_insensitive[where sel = int64_select_page, OF f ne ascii(1) in2 a2]
  have c2: "isCreator (entries f ! 2)"
    using ci by (simp only: l2) simp
  show ?thesis using f l1 l2 c1 c2 by (intro exI[of _ f]) simp
qed

text \<open>
  A successful post never stores an empty reply target: the stored target is the argument
  when that is a non-empty string and null otherwise.
\<close>

theorem stored_reply_target_never_empty:
  assumes "createGuestbookEntry V sess newId now msg replyTo db = Inr (db', ret)"
  shows "g_replyToId (last (db_guestbook db')) \<noteq> Some []
         \<and> g_replyToId (last (db_guestbook db')) = (if truthy replyTo then replyTo else None)"
proof -
  from createGuestbookEntry_InrD[OF assms] obtain row
    where db': "db' = insert_guestbook db row"
      and row: "g_replyToId row = js_or replyTo None"
    by force
  show ?thesis
    by (cases replyTo) (simp_all add: db' row insert_guestbook_def js_or_def)
qed

theorem stored_reply_target_never_empty_witness:
  "createGuestbookEntry sample_validator (Some verified_session) ''m3'' 30 ''hello'' (Some [])
       small_db
     = Inr (insert_guestbook small_db
              \<lparr>g_id = ''m3'', g_message = ''hello'', g_createdAt = 30, g_userId = ''u1'',
               g_replyToId = None\<rparr>,
            None)
   \<and> g_replyToId (last (db_guestbook (insert_guestbook small_db
              \<lparr>g_id = ''m3'', g_message = ''hello'', g_createdAt = 30, g_userId = ''u1'',
               g_replyToId = None\<rparr>))) = None"
proof -
  have post: "createGuestbookEntry sample_validator (Some verified_session) ''m3'' 30 ''hello''
                  (Some []) small_db
                = Inr (insert_guestbook small_db
                         \<lparr>g_id = ''m3'', g_message = ''hello'', g_createdAt = 30,
                          g_userId = ''u1'', g_replyToId = None\<rparr>,
                       None)"
    by (simp add: createGuestbookEntry_def createGuestbookEntry_on_def
        sample_validator_hello_empty_target verified_session_def js_or_def)
  from stored_reply_target_never_empty[OF post] show ?thesis
    using post by simp
qed

end
